theory Spec2Isabelle
  imports Complex_Main "HOL-Library.Word"
begin

section \<open>Blended latent diffusion: the editing pipeline of text_editing_stable_diffusion.py\<close>

text \<open>
  The pipeline is embedded function by function. Tensors (torch tensors and numpy arrays)
  are a shape together with an indexing function; their elements are real numbers, so the
  half-precision rounding of the program is not part of the model. Exceptions are values
  of a sum type, \<open>Inl\<close> carrying the error. The pretrained model, the scheduler, the random
  number generators and the OpenCV routines are outside the repository and enter as the
  fields of an environment record.
\<close>

subsection \<open>Errors\<close>

datatype py_error = ZeroDivisionError | ValueError | RuntimeError | IndexError | LibraryError

definition bind_err :: "py_error + 'a \<Rightarrow> ('a \<Rightarrow> py_error + 'b) \<Rightarrow> py_error + 'b" where
  "bind_err m f = (case m of Inl e \<Rightarrow> Inl e | Inr x \<Rightarrow> f x)"

subsection \<open>Tensors\<close>

record tensor =
  shape :: "nat list"
  item :: "nat list \<Rightarrow> real"

definition valid_index :: "nat list \<Rightarrow> nat list \<Rightarrow> bool" where
  "valid_index shp idx = list_all2 (\<lambda>i d. i < d) idx shp"

fun all_indices :: "nat list \<Rightarrow> nat list list" where
  "all_indices [] = [[]]"
| "all_indices (d # ds) = concat (map (\<lambda>i. map ((#) i) (all_indices ds)) [0..<d])"

definition tensor_values :: "tensor \<Rightarrow> real list" where
  "tensor_values t = map (item t) (all_indices (shape t))"

definition t_map :: "(real \<Rightarrow> real) \<Rightarrow> tensor \<Rightarrow> tensor" where
  \<comment> \<open>an operation between a tensor and a Python scalar\<close>
  "t_map f t = \<lparr>shape = shape t, item = (\<lambda>idx. f (item t idx))\<rparr>"

definition newaxis :: "tensor \<Rightarrow> tensor" where
  \<comment> \<open>\<open>t[None, ...]\<close> and \<open>unsqueeze(0)\<close>\<close>
  "newaxis t = \<lparr>shape = 1 # shape t, item = (\<lambda>idx. item t (tl idx))\<rparr>"




definition bdim :: "nat \<Rightarrow> nat \<Rightarrow> nat option" where
  \<comment> \<open>two axis lengths are compatible when they are equal or one of them is 1\<close>
  "bdim a b = (if a = b then Some a else if a = 1 then Some b else if b = 1 then Some a
               else None)"

fun broadcast_rev :: "nat list \<Rightarrow> nat list \<Rightarrow> nat list option" where
  "broadcast_rev [] bs = Some bs"
| "broadcast_rev (a # as) [] = Some (a # as)"
| "broadcast_rev (a # as) (b # bs) =
     (case bdim a b of None \<Rightarrow> None
      | Some d \<Rightarrow> (case broadcast_rev as bs of None \<Rightarrow> None | Some ds \<Rightarrow> Some (d # ds)))"

definition broadcast_shapes :: "nat list \<Rightarrow> nat list \<Rightarrow> nat list option" where
  \<comment> \<open>shapes are aligned at their last axis\<close>
  "broadcast_shapes sa sb = map_option rev (broadcast_rev (rev sa) (rev sb))"

definition bindex :: "nat list \<Rightarrow> nat list \<Rightarrow> nat list" where
  \<comment> \<open>the index into an operand of shape \<open>shp\<close> for the index \<open>idx\<close> into the result\<close>
  "bindex shp idx =
     map (\<lambda>(d, i). if d = 1 then 0 else i) (zip shp (drop (length idx - length shp) idx))"

definition t_binop :: "(real \<Rightarrow> real \<Rightarrow> real) \<Rightarrow> tensor \<Rightarrow> tensor \<Rightarrow> py_error + tensor" where
  \<comment> \<open>an elementwise operation of two tensors, with broadcasting\<close>
  "t_binop f a b =
     (case broadcast_shapes (shape a) (shape b) of
        None \<Rightarrow> Inl RuntimeError
      | Some s \<Rightarrow>
          Inr \<lparr>shape = s,
               item = (\<lambda>idx. f (item a (bindex (shape a) idx)) (item b (bindex (shape b) idx)))\<rparr>)"

definition t_cat :: "tensor \<Rightarrow> tensor \<Rightarrow> py_error + tensor" where
  \<comment> \<open>\<open>torch.cat([a, b])\<close>, along the first axis\<close>
  "t_cat a b =
     (case (shape a, shape b) of
        (n # sa, m # sb) \<Rightarrow>
          if sa = sb
          then Inr \<lparr>shape = (n + m) # sa,
                    item = (\<lambda>idx. case idx of [] \<Rightarrow> item a []
                                   | i # rest \<Rightarrow> if i < n then item a (i # rest)
                                                 else item b ((i - n) # rest))\<rparr>
          else Inl RuntimeError
      | _ \<Rightarrow> Inl RuntimeError)"

definition narrow :: "nat \<Rightarrow> nat \<Rightarrow> tensor \<Rightarrow> tensor" where
  \<comment> \<open>the rows \<open>start, ..., start + len - 1\<close> along the first axis\<close>
  "narrow start len t =
     \<lparr>shape = len # tl (shape t),
      item = (\<lambda>idx. case idx of [] \<Rightarrow> item t [] | i # rest \<Rightarrow> item t ((start + i) # rest))\<rparr>"

definition chunk2 :: "tensor \<Rightarrow> py_error + (tensor \<times> tensor)" where
  \<comment> \<open>\<open>u, c = t.chunk(2)\<close>: chunks of \<open>ceil(n / 2)\<close> rows; a single row gives a single
      chunk, which cannot be unpacked into two names\<close>
  "chunk2 t =
     (case shape t of
        [] \<Rightarrow> Inl RuntimeError
      | n # s \<Rightarrow>
          let k = (n + 1) div 2
          in if n = 1 then Inl ValueError else Inr (narrow 0 k t, narrow k (n - k) t))"

subsection \<open>Reading the mask\<close>

record gray_image =
  im_width :: nat
  im_height :: nat
  im_pixel :: "nat \<Rightarrow> nat \<Rightarrow> 8 word"

definition resize_nearest :: "gray_image \<Rightarrow> nat \<times> nat \<Rightarrow> gray_image" where
  \<comment> \<open>\<open>Image.resize(size, Image.NEAREST)\<close>: the size is (width, height); an output pixel
      takes the source pixel under its centre\<close>
  "resize_nearest im dest =
     (case dest of (w, h) \<Rightarrow>
        \<lparr>im_width = w, im_height = h,
         im_pixel = (\<lambda>x y. im_pixel im (((2 * x + 1) * im_width im) div (2 * w))
                                         (((2 * y + 1) * im_height im) div (2 * h)))\<rparr>)"

definition np_array :: "gray_image \<Rightarrow> tensor" where
  \<comment> \<open>\<open>np.array(image)\<close> of a mode L image: rows first, elements of type uint8\<close>
  "np_array im =
     \<lparr>shape = [im_height im, im_width im],
      item = (\<lambda>idx. real (unat (im_pixel im (idx ! 1) (idx ! 0))))\<rparr>"

definition np_max :: "tensor \<Rightarrow> py_error + real" where
  \<comment> \<open>\<open>np.max\<close> raises ValueError on an array without elements\<close>
  "np_max t =
     (if tensor_values t = [] then Inl ValueError else Inr (Max (set (tensor_values t))))"

definition set_where :: "(real \<Rightarrow> bool) \<Rightarrow> real \<Rightarrow> tensor \<Rightarrow> tensor" where
  \<comment> \<open>\<open>mask[cond(mask)] = v\<close>\<close>
  "set_where cond v t = t_map (\<lambda>x. if cond x then v else x) t"

definition threshold_half :: "tensor \<Rightarrow> tensor" where
  \<comment> \<open>the two assignments \<open>mask[mask < 0.5] = 0\<close> and \<open>mask[mask >= 0.5] = 1\<close>, in this order\<close>
  "threshold_half arr = set_where (\<lambda>x. x \<ge> 0.5) 1 (set_where (\<lambda>x. x < 0.5) 0 arr)"

definition read_mask :: "gray_image \<Rightarrow> nat \<times> nat \<Rightarrow> py_error + (tensor \<times> gray_image)" where
  \<comment> \<open>\<open>org_mask\<close> is the opened mask file after \<open>convert("L")\<close>\<close>
  "read_mask org_mask dest_size =
     (let arr = np_array (resize_nearest org_mask dest_size) in
      bind_err (np_max arr) (\<lambda>m.
        let arr1 = (if m > 1 then t_map (\<lambda>x. x / 255) arr else arr);
            arr2 = threshold_half arr1;
            arr3 = newaxis (newaxis arr2)
        in Inr (arr3, org_mask)))"

definition distinct_values :: "tensor \<Rightarrow> real set" where
  "distinct_values t = set (tensor_values t)"

definition black_image :: gray_image where
  "black_image = \<lparr>im_width = 2, im_height = 2, im_pixel = (\<lambda>x y. 0)\<rparr>"

subsection \<open>Python scalars\<close>



definition py_int :: "real \<Rightarrow> int" where
  \<comment> \<open>\<open>int(x)\<close> of a float: truncation towards zero\<close>
  "py_int x = (if 0 \<le> x then \<lfloor>x\<rfloor> else \<lceil>x\<rceil>)"

definition py_truediv :: "int \<Rightarrow> int \<Rightarrow> py_error + real" where
  \<comment> \<open>\<open>a / b\<close> of two ints\<close>
  "py_truediv a b = (if b = 0 then Inl ZeroDivisionError else Inr (real_of_int a / real_of_int b))"

definition slice_from :: "'a list \<Rightarrow> int \<Rightarrow> 'a list" where
  \<comment> \<open>\<open>xs[k:]\<close>: a negative start counts from the end\<close>
  "slice_from xs k = (if 0 \<le> k then drop (nat k) xs else drop (nat (int (length xs) + k)) xs)"


subsection \<open>Command line\<close>





subsection \<open>The components outside the repository\<close>

type_synonym timestep = nat

record 'g env =
  tokenizer :: "string list \<Rightarrow> nat \<Rightarrow> bool \<Rightarrow> tensor"
  model_max_length :: nat
  text_encoder :: "tensor \<Rightarrow> tensor"
  unet :: "tensor \<Rightarrow> timestep \<Rightarrow> tensor \<Rightarrow> tensor"
  in_channels :: nat
  vae_encode :: "tensor \<Rightarrow> tensor"
  vae_decode :: "tensor \<Rightarrow> tensor"
  set_timesteps :: "nat \<Rightarrow> timestep list"
  scale_model_input :: "nat \<Rightarrow> tensor \<Rightarrow> timestep \<Rightarrow> tensor"
  scheduler_step :: "nat \<Rightarrow> tensor \<Rightarrow> timestep \<Rightarrow> tensor \<Rightarrow> tensor"
  add_noise :: "nat \<Rightarrow> tensor \<Rightarrow> tensor \<Rightarrow> timestep \<Rightarrow> tensor"
  randn :: "nat list \<Rightarrow> 'g \<Rightarrow> tensor \<times> 'g"
  cv_morph_close :: "nat \<Rightarrow> tensor \<Rightarrow> py_error + tensor"
  cv_erode :: "nat \<Rightarrow> tensor \<Rightarrow> py_error + tensor"
  cv_dilate :: "nat \<Rightarrow> tensor \<Rightarrow> py_error + tensor"

text \<open>
  The tokenizer takes the prompts, \<open>max_length\<close> and the truncation flag and returns the
  input ids. The scheduler functions take the number of inference steps that
  \<open>set_timesteps\<close> stored in the scheduler. \<open>randn\<close> draws a tensor of the given shape and
  returns the advanced generator. The OpenCV routines take the side length of the square
  structuring element of ones; they may fail with an error of the library.
\<close>

subsection \<open>Mask morphology\<close>

definition astype_uint8 :: "tensor \<Rightarrow> tensor" where
  "astype_uint8 t = t_map (\<lambda>x. real_of_int (py_int x mod 256)) t"

definition dilation_kernel_size :: "int \<Rightarrow> int \<Rightarrow> int \<Rightarrow> py_error + int" where
  \<comment> \<open>\<open>int(dilation_init*i/threshold)\<close>\<close>
  "dilation_kernel_size dilation_init i threshold =
     bind_err (py_truediv (dilation_init * i) threshold) (\<lambda>q. Inr (py_int q))"

definition np_ones_square :: "int \<Rightarrow> py_error + nat" where
  \<comment> \<open>\<open>np.ones((k, k), np.uint8)\<close>, kept as its side length; a negative dimension is
      refused\<close>
  "np_ones_square k = (if k < 0 then Inl ValueError else Inr (nat k))"

definition add_leading_axes :: "tensor \<Rightarrow> py_error + tensor" where
  \<comment> \<open>\<open>t[None, None, :, :]\<close>\<close>
  "add_leading_axes t =
     (if length (shape t) < 2 then Inl IndexError else Inr (newaxis (newaxis t)))"

definition morph_dilation ::
  "'g env \<Rightarrow> tensor \<Rightarrow> int \<Rightarrow> int \<Rightarrow> int \<Rightarrow> py_error + tensor" where
  "morph_dilation env np_mask i threshold dilation_init =
     bind_err (cv_morph_close env 1 np_mask) (\<lambda>closed.
       bind_err
         (if i < threshold
          then bind_err (np_ones_square 2) (\<lambda>kernel. cv_erode env kernel (astype_uint8 closed))
          else bind_err (dilation_kernel_size dilation_init i threshold) (\<lambda>kernel_size.
                 bind_err (np_ones_square kernel_size) (\<lambda>kernel.
                   cv_dilate env kernel (astype_uint8 closed))))
         add_leading_axes)"

subsection \<open>Encoding, text conditioning, guidance, blending, decoding\<close>



definition text_conditioning :: "'g env \<Rightarrow> string list \<Rightarrow> py_error + tensor" where
  \<comment> \<open>the embeddings of the prompts and of as many empty strings, concatenated\<close>
  "text_conditioning env prompts =
     (let text_input = tokenizer env prompts (model_max_length env) True;
          text_embeddings = text_encoder env text_input
      in if shape text_input = [] then Inl IndexError
         else
           let max_length = last (shape text_input);
               uncond_input = tokenizer env (replicate (length prompts) []) max_length False;
               uncond_embeddings = text_encoder env uncond_input
           in t_cat uncond_embeddings text_embeddings)"

definition guidance :: "real \<Rightarrow> tensor \<Rightarrow> py_error + tensor" where
  \<comment> \<open>\<open>noise_pred_uncond + guidance_scale * (noise_pred_text - noise_pred_uncond)\<close> on
      the two chunks of the joint prediction\<close>
  "guidance guidance_scale noise_pred =
     bind_err (chunk2 noise_pred) (\<lambda>(noise_pred_uncond, noise_pred_text).
       bind_err (t_binop (\<lambda>x y. x - y) noise_pred_text noise_pred_uncond) (\<lambda>d.
         t_binop (\<lambda>x y. x + y) noise_pred_uncond (t_map (\<lambda>x. guidance_scale * x) d)))"




subsection \<open>The denoising loop\<close>

definition loop_timesteps :: "'g env \<Rightarrow> nat \<Rightarrow> real \<Rightarrow> timestep list" where
  \<comment> \<open>\<open>timesteps[int(len(timesteps) * blending_percentage):]\<close>\<close>
  "loop_timesteps env num_steps blending_percentage =
     (let timesteps = set_timesteps env num_steps
      in slice_from timesteps (py_int (real (length timesteps) * blending_percentage)))"

definition dilation_threshold :: "'g env \<Rightarrow> nat \<Rightarrow> real \<Rightarrow> int" where
  \<comment> \<open>\<open>threshold = total // 2\<close>\<close>
  "dilation_threshold env num_steps blending_percentage =
     int (length (loop_timesteps env num_steps blending_percentage)) div 2"










subsection \<open>A small instance\<close>

text \<open>
  An environment whose components are simple total functions, and a 2 x 2 mask of ones, on
  which the theorems below are instantiated.
\<close>

definition sample_env :: "nat env" where
  "sample_env =
     \<lparr>tokenizer = (\<lambda>ps n tr. \<lparr>shape = [length ps, n], item = (\<lambda>idx. 0)\<rparr>),
      model_max_length = 2,
      text_encoder = (\<lambda>ids. \<lparr>shape = shape ids @ [1], item = (\<lambda>idx. 0)\<rparr>),
      unet = (\<lambda>x t e. x),
      in_channels = 1,
      vae_encode = (\<lambda>x. \<lparr>shape = [1, 1, 64, 64], item = (\<lambda>idx. 1)\<rparr>),
      vae_decode = (\<lambda>x. x),
      set_timesteps = (\<lambda>n. rev (map (\<lambda>k. k * (1000 div n)) [0..<n])),
      scale_model_input = (\<lambda>n x t. x),
      scheduler_step = (\<lambda>n noise t lat. lat),
      add_noise = (\<lambda>n src noise t. src),
      randn = (\<lambda>shp g. (\<lparr>shape = shp, item = (\<lambda>idx. 0)\<rparr>, Suc g)),
      cv_morph_close = (\<lambda>k t. Inr t),
      cv_erode = (\<lambda>k t. Inr t),
      cv_dilate = (\<lambda>k t. Inr t)\<rparr>"

definition ones_mask :: tensor where
  "ones_mask = \<lparr>shape = [2, 2], item = (\<lambda>idx. 1)\<rparr>"





section \<open>Properties\<close>

lemma all_indices_valid: "set (all_indices shp) = {idx. valid_index shp idx}"
proof (induction shp)
  case Nil
  show ?case by (auto simp: valid_index_def)
next
  case (Cons d ds)
  show ?case
  proof (rule set_eqI)
    fix idx
    show "idx \<in> set (all_indices (d # ds)) \<longleftrightarrow> idx \<in> {idx. valid_index (d # ds) idx}"
      using Cons.IH by (cases idx) (auto simp: valid_index_def)
  qed
qed

lemma all_indices_empty_iff: "all_indices shp = [] \<longleftrightarrow> 0 \<in> set shp"
  by (induction shp) auto

lemma tensor_values_t_map: "tensor_values (t_map f t) = map f (tensor_values t)"
  by (simp add: tensor_values_def t_map_def)

lemma shape_t_map: "shape (t_map f t) = shape t"
  by (simp add: t_map_def)

lemma item_threshold_half:
  "item (threshold_half a) idx = (if item a idx < 1 / 2 then 0 else 1)"
  by (simp add: threshold_half_def set_where_def t_map_def)

lemma shape_threshold_half: "shape (threshold_half a) = shape a"
  by (simp add: threshold_half_def set_where_def t_map_def)

lemma np_max_defined:
  assumes "0 \<notin> set (shape t)"
  shows "np_max t = Inr (Max (set (tensor_values t)))"
  using assms by (simp add: np_max_def tensor_values_def all_indices_empty_iff)

lemma read_mask_result:
  assumes "0 < w" and "0 < h"
  shows "read_mask org (w, h) =
           Inr (newaxis (newaxis (threshold_half
                  (if Max (set (tensor_values (np_array (resize_nearest org (w, h))))) > 1
                   then t_map (\<lambda>x. x / 255) (np_array (resize_nearest org (w, h)))
                   else np_array (resize_nearest org (w, h))))), org)"
proof -
  have "0 \<notin> set (shape (np_array (resize_nearest org (w, h))))"
    using assms by (simp add: np_array_def resize_nearest_def)
  then show ?thesis
    by (simp add: read_mask_def Let_def bind_err_def np_max_defined)
qed

lemma constant_tensor_values:
  assumes "0 \<notin> set (shape t)" and "\<And>idx. item t idx = c"
  shows "distinct_values t = {c}"
proof -
  have "all_indices (shape t) \<noteq> []"
    using assms(1) by (simp add: all_indices_empty_iff)
  then have "(\<lambda>idx. c) ` set (all_indices (shape t)) = {c}"
    by (cases "all_indices (shape t)") auto
  then show ?thesis
    using assms(2) by (simp add: distinct_values_def tensor_values_def)
qed

text \<open>
  C10. The thresholding step at 0.5 is idempotent: on an array whose elements are all 0 or
  1 it returns an array of the same shape with the same elements.
\<close>

theorem threshold_half_idempotent:
  assumes "\<forall>v \<in> set (tensor_values arr). v = 0 \<or> v = 1"
  shows "shape (threshold_half arr) = shape arr
         \<and> tensor_values (threshold_half arr) = tensor_values arr"
proof -
  have "map (\<lambda>x. if x \<ge> 0.5 then 1 else x) (map (\<lambda>x. if x < 0.5 then 0 else x) vs) = vs"
    if "\<forall>v \<in> set vs. v = 0 \<or> v = (1::real)" for vs
    using that by (induction vs) auto
  then show ?thesis
    using assms
    by (simp add: threshold_half_def set_where_def tensor_values_t_map shape_t_map)
qed

theorem threshold_half_idempotent_witness:
  "tensor_values (threshold_half \<lparr>shape = [2], item = (\<lambda>idx. if idx = [0] then 0 else 1)\<rparr>)
     = [0, 1]"
proof -
  have v: "tensor_values \<lparr>shape = [2], item = (\<lambda>idx. if idx = [0] then 0 else 1)\<rparr> = [0, 1]"
    by (simp add: tensor_values_def upt_rec)
  then have "\<forall>v \<in> set (tensor_values
      \<lparr>shape = [2], item = (\<lambda>idx. if idx = [0] then 0 else 1)\<rparr>). v = 0 \<or> v = 1"
    by simp
  from threshold_half_idempotent [OF this] show ?thesis
    using v by simp
qed

text \<open>
  C9 (as the code has it). For every 8-bit grayscale mask image, the mask returned by
  \<open>_read_mask\<close> at the default destination size has shape 1 x 1 x 64 x 64, and each of
  its elements is 0 or 1: it is 0 where the pixel (divided by 255 only when the maximum
  pixel exceeds 1) is below 0.5, and 1 elsewhere. Both values need not occur.
\<close>

theorem read_mask_binary:
  "\<exists>t. read_mask org (64, 64) = Inr (t, org)
       \<and> shape t = [1, 1, 64, 64]
       \<and> distinct_values t \<subseteq> {0, 1}
       \<and> (\<forall>idx. item t idx =
            (let arr = np_array (resize_nearest org (64, 64));
                 p = item arr (tl (tl idx))
             in if (if Max (set (tensor_values arr)) > 1 then p / 255 else p) < 1 / 2
                then 0 else 1))"
proof -
  let ?arr = "np_array (resize_nearest org (64, 64))"
  let ?a1 = "if Max (set (tensor_values ?arr)) > 1 then t_map (\<lambda>x. x / 255) ?arr else ?arr"
  let ?t = "newaxis (newaxis (threshold_half ?a1))"
  have r: "read_mask org (64, 64) = Inr (?t, org)"
    by (rule read_mask_result) simp_all
  have s: "shape ?t = [1, 1, 64, 64]"
    by (simp add: newaxis_def shape_threshold_half shape_t_map np_array_def resize_nearest_def)
  have i: "item ?t idx = (if item ?a1 (tl (tl idx)) < 1 / 2 then 0 else 1)" for idx
    by (simp add: newaxis_def item_threshold_half)
  have d: "distinct_values ?t \<subseteq> {0, 1}"
  proof
    fix v
    assume "v \<in> distinct_values ?t"
    then obtain idx where v: "v = item ?t idx"
      by (auto simp: distinct_values_def tensor_values_def)
    show "v \<in> {0, 1}"
      unfolding v i by (cases "item ?a1 (tl (tl idx)) < 1 / 2") simp_all
  qed
  have e: "item ?t idx =
            (let arr = ?arr; p = item arr (tl (tl idx))
             in if (if Max (set (tensor_values arr)) > 1 then p / 255 else p) < 1 / 2
                then 0 else 1)" for idx
    unfolding i Let_def by (simp add: t_map_def)
  from r s d e show ?thesis by blast
qed

theorem read_mask_binary_counterexample:
  "map_sum id (\<lambda>r. distinct_values (fst r)) (read_mask black_image (64, 64)) = Inr {0}
   \<and> {0 :: real} \<noteq> {0, 1}"
proof -
  let ?arr = "np_array (resize_nearest black_image (64, 64))"
  have z: "item ?arr idx = 0" for idx
    by (simp add: np_array_def resize_nearest_def black_image_def)
  have sh: "shape ?arr = [64, 64]"
    by (simp add: np_array_def resize_nearest_def)
  have "distinct_values ?arr = {0}"
    by (rule constant_tensor_values) (simp_all add: sh z)
  then have m: "Max (set (tensor_values ?arr)) = 0"
    by (simp add: distinct_values_def)
  let ?t = "newaxis (newaxis (threshold_half ?arr))"
  have r: "read_mask black_image (64, 64) = Inr (?t, black_image)"
    using read_mask_result [of 64 64 black_image] by (simp add: m)
  have "distinct_values ?t = {0}"
    by (rule constant_tensor_values)
       (simp_all add: newaxis_def shape_threshold_half sh item_threshold_half z)
  with r show ?thesis by simp
qed

lemma kernel_size_value:
  assumes "0 < threshold" and "0 \<le> i" and "0 \<le> d"
  shows "dilation_kernel_size d i threshold = Inr ((d * i) div threshold)"
proof -
  have "0 \<le> real_of_int (d * i) / real_of_int threshold"
    using assms by simp
  then have "py_int (real_of_int (d * i) / real_of_int threshold) = (d * i) div threshold"
    using floor_divide_of_int_eq [of "d * i" threshold, where ?'a = real]
    by (simp add: py_int_def)
  then show ?thesis
    using assms(1) by (simp add: dilation_kernel_size_def py_truediv_def bind_err_def)
qed





text \<open>
  C6, as stated, fails: with 50 timesteps and a start at 98 percent the loop setup gives
  the threshold 0, and at step 0 \<open>morph_dilation\<close> divides by it.
\<close>

theorem morph_dilation_guard_counterexample:
  "dilation_threshold sample_env 50 (98 / 100) = 0
   \<and> morph_dilation sample_env ones_mask 0 0 5 = Inl ZeroDivisionError"
  by (simp add: dilation_threshold_def loop_timesteps_def sample_env_def slice_from_def
      py_int_def morph_dilation_def dilation_kernel_size_def py_truediv_def bind_err_def)

text \<open>
  C6 (as the code has it). \<open>morph_dilation\<close> has no guard for an empty kernel: it passes
  the side it computed to the library as it is. For every threshold of at least 1 and
  every step index \<open>i \<ge> 0\<close> the side is at least 2 (2 for the erosion, \<open>5 * i div
  threshold \<ge> 5\<close> for the dilation), nothing is raised by \<open>morph_dilation\<close> itself, and
  its result is the result of the library calls.
\<close>

theorem morph_dilation_positive_threshold:
  assumes "0 < threshold" and "0 \<le> i"
  shows "\<exists>k\<ge>2.
     morph_dilation env m i threshold 5 =
       bind_err (cv_morph_close env 1 m) (\<lambda>closed.
         bind_err ((if i < threshold then cv_erode env k else cv_dilate env k)
                     (astype_uint8 closed)) add_leading_axes)
     \<and> (threshold \<le> i \<longrightarrow> int k = (5 * i) div threshold \<and> 5 \<le> k)
     \<and> (\<forall>c r. cv_morph_close env 1 m = Inr c
            \<and> (if i < threshold then cv_erode env k else cv_dilate env k) (astype_uint8 c) = Inr r
            \<and> 2 \<le> length (shape r)
          \<longrightarrow> morph_dilation env m i threshold 5 = Inr (newaxis (newaxis r)))"
proof (cases "i < threshold")
  case True
  have e: "morph_dilation env m i threshold 5 =
       bind_err (cv_morph_close env 1 m) (\<lambda>closed.
         bind_err (cv_erode env 2 (astype_uint8 closed)) add_leading_axes)"
    using True by (simp add: morph_dilation_def np_ones_square_def bind_err_def)
  show ?thesis
  proof (intro exI [of _ 2] conjI allI impI)
    show "morph_dilation env m i threshold 5 =
       bind_err (cv_morph_close env 1 m) (\<lambda>closed.
         bind_err ((if i < threshold then cv_erode env 2 else cv_dilate env 2)
                     (astype_uint8 closed)) add_leading_axes)"
      using True e by simp
  next
    fix c r
    assume "cv_morph_close env 1 m = Inr c
            \<and> (if i < threshold then cv_erode env 2 else cv_dilate env 2) (astype_uint8 c) = Inr r
            \<and> 2 \<le> length (shape r)"
    then show "morph_dilation env m i threshold 5 = Inr (newaxis (newaxis r))"
      using True by (simp add: e bind_err_def add_leading_axes_def)
  qed (use True in simp_all)
next
  case False
  let ?q = "(5 * i) div threshold"
  have ge: "5 \<le> ?q"
  proof -
    have "5 * threshold \<le> 5 * i" using False by simp
    then have "(5 * threshold) div threshold \<le> ?q"
      using assms(1) by (intro zdiv_mono1) simp_all
    then show ?thesis using assms(1) by simp
  qed
  have k: "dilation_kernel_size 5 i threshold = Inr ?q"
    using assms by (simp add: kernel_size_value)
  have d: "morph_dilation env m i threshold 5 =
       bind_err (cv_morph_close env 1 m) (\<lambda>closed.
         bind_err (cv_dilate env (nat ?q) (astype_uint8 closed)) add_leading_axes)"
    using False ge by (simp add: morph_dilation_def k np_ones_square_def bind_err_def)
  show ?thesis
  proof (intro exI [of _ "nat ?q"] conjI allI impI)
    show "2 \<le> nat ?q" using ge by simp
    show "morph_dilation env m i threshold 5 =
       bind_err (cv_morph_close env 1 m) (\<lambda>closed.
         bind_err ((if i < threshold then cv_erode env (nat ?q) else cv_dilate env (nat ?q))
                     (astype_uint8 closed)) add_leading_axes)"
      using False d by simp
    show "int (nat ?q) = ?q" using ge by simp
    show "5 \<le> nat ?q" using ge by simp
  next
    fix c r
    assume "cv_morph_close env 1 m = Inr c
            \<and> (if i < threshold then cv_erode env (nat ?q) else cv_dilate env (nat ?q))
                 (astype_uint8 c) = Inr r
            \<and> 2 \<le> length (shape r)"
    then show "morph_dilation env m i threshold 5 = Inr (newaxis (newaxis r))"
      using False by (simp add: d bind_err_def add_leading_axes_def)
  qed
qed

theorem morph_dilation_positive_threshold_witness:
  "\<exists>k\<ge>2. morph_dilation sample_env ones_mask 3 2 5 =
       bind_err (cv_morph_close sample_env 1 ones_mask) (\<lambda>closed.
         bind_err (cv_dilate sample_env k (astype_uint8 closed)) add_leading_axes)
     \<and> int k = 7"
proof -
  have "(0 :: int) < 2" and "(0 :: int) \<le> 3" by simp_all
  from morph_dilation_positive_threshold [OF this, of sample_env ones_mask]
  show ?thesis by auto
qed


lemma bindex_valid:
  assumes "valid_index shp idx"
  shows "bindex shp idx = idx"
proof -
  have "map (\<lambda>(d, i). if d = 1 then 0 else i) (zip shp idx) = idx"
    if "list_all2 (\<lambda>i d. i < d) idx shp" for idx shp :: "nat list"
    using that by (induction rule: list_all2_induct) auto
  moreover have "length idx = length shp"
    using assms by (simp add: valid_index_def list_all2_lengthD)
  ultimately show ?thesis
    using assms by (simp add: bindex_def valid_index_def)
qed

lemma broadcast_rev_same: "broadcast_rev s s = Some s"
  by (induction s) (simp_all add: bdim_def)

lemma broadcast_shapes_same: "broadcast_shapes s s = Some s"
  by (simp add: broadcast_shapes_def broadcast_rev_same)

lemma t_binop_same_shape:
  assumes "shape b = shape a"
  shows "t_binop f a b =
     Inr \<lparr>shape = shape a,
          item = (\<lambda>idx. f (item a (bindex (shape a) idx)) (item b (bindex (shape a) idx)))\<rparr>"
  using assms by (simp add: t_binop_def broadcast_shapes_same)







lemma t_cat_result:
  assumes "shape u = n # s" and "shape c = m # s"
  shows "t_cat u c =
     Inr \<lparr>shape = (n + m) # s,
          item = (\<lambda>idx. case idx of [] \<Rightarrow> item u []
                         | i # rest \<Rightarrow> if i < n then item u (i # rest)
                                       else item c ((i - n) # rest))\<rparr>"
  using assms by (simp add: t_cat_def)

lemma chunk2_result:
  assumes "shape t = (2 * n) # s"
  shows "chunk2 t = Inr (narrow 0 n t, narrow n n t)"
proof -
  have "(2 * n + 1) div 2 = n" by simp
  moreover have "2 * n \<noteq> 1" by presburger
  ultimately show ?thesis
    using assms by (simp add: chunk2_def Let_def)
qed

lemma guidance_result:
  assumes "shape noise_pred = (2 * n) # s"
  shows "\<exists>g. guidance gs noise_pred = Inr g \<and> shape g = n # s
     \<and> (\<forall>i rest. valid_index (n # s) (i # rest) \<longrightarrow>
           item g (i # rest) =
             item noise_pred (i # rest)
             + gs * (item noise_pred ((n + i) # rest) - item noise_pred (i # rest)))"
proof -
  let ?u = "narrow 0 n noise_pred" and ?c = "narrow n n noise_pred"
  let ?d = "\<lparr>shape = n # s,
             item = (\<lambda>idx. item ?c (bindex (n # s) idx) - item ?u (bindex (n # s) idx))\<rparr>"
  let ?g = "\<lparr>shape = n # s,
             item = (\<lambda>idx. item ?u (bindex (n # s) idx)
                          + item (t_map (\<lambda>x. gs * x) ?d) (bindex (n # s) idx))\<rparr>"
  have su: "shape ?u = n # s" and sc: "shape ?c = n # s"
    using assms by (simp_all add: narrow_def)
  have d: "t_binop (\<lambda>x y. x - y) ?c ?u = Inr ?d"
    using t_binop_same_shape [of ?u ?c "\<lambda>x y. x - y"] su sc by simp
  have g: "t_binop (\<lambda>x y. x + y) ?u (t_map (\<lambda>x. gs * x) ?d) = Inr ?g"
    using t_binop_same_shape [of "t_map (\<lambda>x. gs * x) ?d" ?u "\<lambda>x y. x + y"] su
    by (simp add: shape_t_map)
  have r: "guidance gs noise_pred = Inr ?g"
    by (simp only: guidance_def chunk2_result [OF assms] bind_err_def sum.case prod.case d g)
  have v: "item ?g (i # rest) =
             item noise_pred (i # rest)
             + gs * (item noise_pred ((n + i) # rest) - item noise_pred (i # rest))"
    if "valid_index (n # s) (i # rest)" for i rest
    by (simp add: bindex_valid [OF that] t_map_def narrow_def)
  have "shape ?g = n # s" by simp
  with r v show ?thesis by blast
qed











text \<open>
  C3. For N prompts the text conditioning returns 2N rows: the first N are the embeddings
  of N empty strings, the last N the embeddings of the prompts. The guidance splits a joint
  prediction of 2N rows into its first and last N rows and returns
  \<open>uncond + guidance_scale * (cond - uncond)\<close>, row by row.
\<close>

theorem conditioning_order:
  assumes "text_input = tokenizer env prompts (model_max_length env) True"
    and "shape text_input \<noteq> []"
    and "uncond = text_encoder env
           (tokenizer env (replicate (length prompts) []) (last (shape text_input)) False)"
    and "cond = text_encoder env text_input"
    and "shape uncond = length prompts # s" and "shape cond = length prompts # s"
    and "shape noise_pred = (2 * length prompts) # s'"
  shows "\<exists>e g. text_conditioning env prompts = Inr e
     \<and> shape e = (2 * length prompts) # s
     \<and> (\<forall>i rest. i < length prompts \<longrightarrow>
           item e (i # rest) = item uncond (i # rest)
           \<and> item e ((length prompts + i) # rest) = item cond (i # rest))
     \<and> guidance gs noise_pred = Inr g
     \<and> shape g = length prompts # s'
     \<and> (\<forall>i rest. valid_index (length prompts # s') (i # rest) \<longrightarrow>
           item g (i # rest) =
             item noise_pred (i # rest)
             + gs * (item noise_pred ((length prompts + i) # rest)
                     - item noise_pred (i # rest)))"
proof -
  let ?n = "length prompts"
  let ?e = "\<lparr>shape = (?n + ?n) # s,
          item = (\<lambda>idx. case idx of [] \<Rightarrow> item uncond []
                         | i # rest \<Rightarrow> if i < ?n then item uncond (i # rest)
                                       else item cond ((i - ?n) # rest))\<rparr>"
  have "t_cat uncond cond = Inr ?e"
    using assms(5,6) by (rule t_cat_result)
  then have e: "text_conditioning env prompts = Inr ?e"
    using assms(1-4) by (simp add: text_conditioning_def Let_def)
  have se: "shape ?e = (2 * ?n) # s" by simp
  have ve: "item ?e (i # rest) = item uncond (i # rest)
           \<and> item ?e ((?n + i) # rest) = item cond (i # rest)"
    if "i < ?n" for i rest
    using that by simp
  obtain g where g: "guidance gs noise_pred = Inr g" "shape g = ?n # s'"
    "\<forall>i rest. valid_index (?n # s') (i # rest) \<longrightarrow>
           item g (i # rest) =
             item noise_pred (i # rest)
             + gs * (item noise_pred ((?n + i) # rest) - item noise_pred (i # rest))"
    using guidance_result [OF assms(7)] by blast
  from e se ve g show ?thesis by blast
qed

theorem conditioning_order_witness:
  "\<exists>e g. text_conditioning sample_env [''a cat''] = Inr e \<and> shape e = [2, 2, 1]
     \<and> guidance 7.5 \<lparr>shape = [2, 1], item = (\<lambda>idx. if idx = [0, 0] then 1 else 3)\<rparr> = Inr g
     \<and> shape g = [1, 1] \<and> item g [0, 0] = 16"
proof -
  let ?np = "\<lparr>shape = [2, 1], item = (\<lambda>idx. if idx = [0, 0] then 1 else (3 :: real))\<rparr>"
  let ?ti = "tokenizer sample_env [''a cat''] (model_max_length sample_env) True"
  let ?u = "text_encoder sample_env
              (tokenizer sample_env (replicate (length [''a cat'']) []) (last (shape ?ti)) False)"
  let ?c = "text_encoder sample_env ?ti"
  have 1: "shape ?ti \<noteq> []" by (simp add: sample_env_def)
  have 2: "shape ?u = length [''a cat''] # [2, 1]" by (simp add: sample_env_def)
  have 3: "shape ?c = length [''a cat''] # [2, 1]" by (simp add: sample_env_def)
  have 4: "shape ?np = (2 * length [''a cat'']) # [1]" by simp
  from conditioning_order [OF refl 1 refl refl 2 3 4, of "7.5"]
  obtain e g where e: "text_conditioning sample_env [''a cat''] = Inr e" "shape e = [2, 2, 1]"
    and g: "guidance 7.5 ?np = Inr g" "shape g = [1, 1]"
    and v: "\<And>i rest. valid_index [1, 1] (i # rest) \<Longrightarrow>
           item g (i # rest) =
             item ?np (i # rest) + 7.5 * (item ?np ((1 + i) # rest) - item ?np (i # rest))"
    by auto
  have "item g [0, 0] = 16"
    using v [of 0 "[0]"] by (simp add: valid_index_def)
  with e g show ?thesis by blast
qed




end
